theory Spec2Isabelle
  imports Main
begin

section \<open>The gallery lightbox of js/main.js\<close>

text \<open>
  The development embeds \<^verbatim>\<open>initGalleryLightbox\<close> (js/main.js, lines 253-374) and the
  closures it declares: \<^verbatim>\<open>showLightbox\<close>, \<^verbatim>\<open>closeLightbox\<close>, \<^verbatim>\<open>showNext\<close>,
  \<^verbatim>\<open>showPrev\<close> and the three kinds of event listener. The DOM is modelled by the
  properties these closures read and write; mutation is explicit state passing.
\<close>

subsection \<open>JavaScript numbers and array reads\<close>

text \<open>
  \<^verbatim>\<open>currentIndex\<close> is a JavaScript number. Every value it takes is an integer far
  below \<open>2^53\<close> (array lengths are below \<open>2^32\<close>), where double arithmetic is exact, so
  numbers are integers here, together with \<open>NaN\<close>, which \<^verbatim>\<open>%\<close> yields for a zero
  divisor. \<^verbatim>\<open>%\<close> is the truncated remainder: its sign is the dividend's.
\<close>

datatype js_num = Num int | NaN

fun js_add :: "js_num \<Rightarrow> js_num \<Rightarrow> js_num" where
  "js_add (Num a) (Num b) = Num (a + b)"
| "js_add _ _ = NaN"

fun js_sub :: "js_num \<Rightarrow> js_num \<Rightarrow> js_num" where
  "js_sub (Num a) (Num b) = Num (a - b)"
| "js_sub _ _ = NaN"

definition trunc_rem :: "int \<Rightarrow> int \<Rightarrow> int" where
  "trunc_rem a b = sgn a * (\<bar>a\<bar> mod \<bar>b\<bar>)"

fun js_rem :: "js_num \<Rightarrow> js_num \<Rightarrow> js_num" where
  "js_rem (Num a) (Num b) = (if b = 0 then NaN else Num (trunc_rem a b))"
| "js_rem _ _ = NaN"

text \<open>\<^verbatim>\<open>array[index]\<close>: \<open>None\<close> is \<^verbatim>\<open>undefined\<close>, the value of a read outside the array.\<close>

fun array_get :: "'a list \<Rightarrow> js_num \<Rightarrow> 'a option" where
  "array_get xs (Num i) = (if 0 \<le> i \<and> i < int (length xs) then Some (xs ! nat i) else None)"
| "array_get xs NaN = None"

datatype js_error = TypeError

subsection \<open>Elements\<close>

text \<open>
  A gallery image as \<^verbatim>\<open>showLightbox\<close> sees it: \<^verbatim>\<open>img.src\<close>, \<^verbatim>\<open>img.alt\<close> and
  \<^verbatim>\<open>img.closest('figure')\<close> (\<open>None\<close> is \<^verbatim>\<open>null\<close>); of a figure only
  \<^verbatim>\<open>figure.querySelector('figcaption')\<close> matters, given by the \<^verbatim>\<open>textContent\<close> of the
  element found, if one is found. The last three fields are what initialisation sets on
  each image.
\<close>

record figure_elem =
  figcaption :: "string option"

record img_elem =
  src :: string
  alt :: string
  figure :: "figure_elem option"
  style_cursor :: string
  tabindex :: "string option"
  role :: "string option"

datatype element = Body | GalleryImg nat | CloseBtn | PrevBtn | NextBtn | Overlay

text \<open>\<^verbatim>\<open>classList\<close>: \<^verbatim>\<open>add\<close> keeps an existing token, \<^verbatim>\<open>remove\<close> removes it.\<close>

definition classList_contains :: "string \<Rightarrow> string list \<Rightarrow> bool" where
  "classList_contains c cl = (c \<in> set cl)"

definition classList_add :: "string \<Rightarrow> string list \<Rightarrow> string list" where
  "classList_add c cl = (if c \<in> set cl then cl else cl @ [c])"

definition classList_remove :: "string \<Rightarrow> string list \<Rightarrow> string list" where
  "classList_remove c cl = removeAll c cl"

definition ACTIVE :: string where
  "ACTIVE = ''active''"

subsection \<open>State\<close>

text \<open>
  The page as \<^verbatim>\<open>initGalleryLightbox\<close> finds it: the elements matched by
  \<^verbatim>\<open>CONFIG.SELECTORS.GALLERY_ITEMS\<close> in document order, the inline
  \<^verbatim>\<open>document.body.style.overflow\<close> and \<^verbatim>\<open>document.activeElement\<close>.
\<close>

record page =
  doc_galleryImages :: "img_elem list"
  doc_body_overflow :: string
  doc_activeElement :: element

text \<open>
  Everything the closures read and write once the controller is set up: the closure
  variables \<^verbatim>\<open>currentIndex\<close> and \<^verbatim>\<open>imageArray\<close>, the properties of the modal
  (\<^verbatim>\<open>lightbox\<close>, \<^verbatim>\<open>lightboxImage\<close>, \<^verbatim>\<open>lightboxCaption\<close>), the scroll lock on the
  body and the focused element.
\<close>

record viewer =
  currentIndex :: js_num
  imageArray :: "img_elem list"
  classList :: "string list"
  lightbox_role :: string
  aria_modal :: string
  aria_label :: string
  aria_hidden :: string
  lightboxImage_src :: string
  lightboxImage_alt :: string
  lightboxCaption_textContent :: string
  body_overflow :: string
  activeElement :: element

type_synonym outcome = "(js_error \<times> viewer) + viewer"

text \<open>
  A closure either returns (\<open>Inr\<close>) or throws (\<open>Inl\<close>); what it wrote before
  throwing stays written, so the thrown branch carries the state too.
\<close>

fun after :: "outcome \<Rightarrow> viewer" where
  "after (Inr s) = s"
| "after (Inl (e, s)) = s"

subsection \<open>The closures\<close>

text \<open>
  \<^verbatim>\<open>showLightbox\<close> (lines 291-307). When \<^verbatim>\<open>imageArray[index]\<close> is
  \<^verbatim>\<open>undefined\<close>, \<^verbatim>\<open>img.closest\<close> throws a TypeError, after \<^verbatim>\<open>currentIndex\<close>
  was assigned.
\<close>

definition showLightbox :: "js_num \<Rightarrow> viewer \<Rightarrow> outcome" where
  "showLightbox index s =
    (let s1 = s\<lparr>currentIndex := index\<rparr> in
     case array_get (imageArray s1) index of
       None \<Rightarrow> Inl (TypeError, s1)
     | Some img \<Rightarrow>
         let caption = (case figure img of Some fig \<Rightarrow> figcaption fig | None \<Rightarrow> None) in
         Inr (s1\<lparr>lightboxImage_src := src img,
                 lightboxImage_alt := alt img,
                 lightboxCaption_textContent :=
                   (case caption of Some txt \<Rightarrow> txt | None \<Rightarrow> alt img),
                 classList := classList_add ACTIVE (classList s1),
                 aria_hidden := ''false'',
                 body_overflow := ''hidden'',
                 activeElement := CloseBtn\<rparr>))"

text \<open>\<^verbatim>\<open>closeLightbox\<close> (lines 313-317): three writes, none of which can throw.\<close>

definition closeLightbox :: "viewer \<Rightarrow> viewer" where
  "closeLightbox s =
    s\<lparr>classList := classList_remove ACTIVE (classList s),
      aria_hidden := ''true'',
      body_overflow := ''''\<rparr>"

text \<open>\<^verbatim>\<open>showNext\<close> (lines 323-326) and \<^verbatim>\<open>showPrev\<close> (lines 332-335).\<close>

definition showNext :: "viewer \<Rightarrow> outcome" where
  "showNext s =
    (let s1 = s\<lparr>currentIndex :=
                 js_rem (js_add (currentIndex s) (Num 1)) (Num (int (length (imageArray s))))\<rparr>
     in showLightbox (currentIndex s1) s1)"

definition showPrev :: "viewer \<Rightarrow> outcome" where
  "showPrev s =
    (let s1 = s\<lparr>currentIndex :=
                 js_rem (js_add (js_sub (currentIndex s) (Num 1))
                                (Num (int (length (imageArray s)))))
                        (Num (int (length (imageArray s))))\<rparr>
     in showLightbox (currentIndex s1) s1)"

subsection \<open>The state machine of the specification\<close>

text \<open>
  The specification's two states, read off the DOM the way the key handler does: the
  viewer is open when the modal carries the class \<^verbatim>\<open>active\<close>.
\<close>

datatype viewer_state = Closed | Open js_num

definition view :: "viewer \<Rightarrow> viewer_state" where
  "view s = (if classList_contains ACTIVE (classList s) then Open (currentIndex s) else Closed)"

subsection \<open>Event listeners\<close>

text \<open>
  The listeners registered at lines 338-373. A listener is a target, an event type and
  the function to run; the string a handler receives is \<^verbatim>\<open>e.key\<close>, which the click
  handlers ignore.
\<close>

datatype target = OnElement element | OnDocument

datatype handler =
  ShowLightboxAt nat | ImgKeydownAt nat | CloseLightbox | ShowPrev | ShowNext | DocumentKeydown

type_synonym listener = "target \<times> string \<times> handler"

text \<open>The \<^verbatim>\<open>keydown\<close> listener of a gallery image (lines 344-349).\<close>

definition img_keydown :: "nat \<Rightarrow> string \<Rightarrow> viewer \<Rightarrow> outcome" where
  "img_keydown index key s =
    (if key = ''Enter'' \<or> key = '' '' then showLightbox (Num (int index)) s else Inr s)"

text \<open>The \<^verbatim>\<open>keydown\<close> listener of the document (lines 359-373).\<close>

definition document_keydown :: "string \<Rightarrow> viewer \<Rightarrow> outcome" where
  "document_keydown key s =
    (if classList_contains ACTIVE (classList s) then
       (if key = ''Escape'' then Inr (closeLightbox s)
        else if key = ''ArrowLeft'' then showPrev s
        else if key = ''ArrowRight'' then showNext s
        else Inr s)
     else Inr s)"

fun run_handler :: "handler \<Rightarrow> string \<Rightarrow> viewer \<Rightarrow> outcome" where
  "run_handler (ShowLightboxAt index) key s = showLightbox (Num (int index)) s"
| "run_handler (ImgKeydownAt index) key s = img_keydown index key s"
| "run_handler CloseLightbox key s = Inr (closeLightbox s)"
| "run_handler ShowPrev key s = showPrev s"
| "run_handler ShowNext key s = showNext s"
| "run_handler DocumentKeydown key s = document_keydown key s"

subsection \<open>Initialisation\<close>

text \<open>
  \<^verbatim>\<open>initGalleryLightbox\<close> (lines 253-374). \<open>None\<close> is the return at line 255:
  nothing has been created or registered then. Otherwise the result holds the state the
  closures start from (the modal as lines 261-277 build it, appended to the body) and
  the listeners in the order of their registration.
\<close>

record activation =
  initial :: viewer
  attached :: "listener list"

definition activate_img :: "img_elem \<Rightarrow> img_elem" where
  "activate_img img =
    img\<lparr>style_cursor := ''pointer'', tabindex := Some ''0'', role := Some ''button''\<rparr>"

definition img_listeners :: "nat \<Rightarrow> listener list" where
  "img_listeners index =
    [(OnElement (GalleryImg index), ''click'', ShowLightboxAt index),
     (OnElement (GalleryImg index), ''keydown'', ImgKeydownAt index)]"

definition initGalleryLightbox :: "page \<Rightarrow> activation option" where
  "initGalleryLightbox p =
    (if length (doc_galleryImages p) = 0 then None
     else Some
       \<lparr>initial =
          \<lparr>currentIndex = Num 0,
           imageArray = map activate_img (doc_galleryImages p),
           classList = [''lightbox''],
           lightbox_role = ''dialog'',
           aria_modal = ''true'',
           aria_label = ''Image gallery lightbox'',
           aria_hidden = ''true'',
           lightboxImage_src = '''',
           lightboxImage_alt = '''',
           lightboxCaption_textContent = '''',
           body_overflow = doc_body_overflow p,
           activeElement = doc_activeElement p\<rparr>,
        attached =
          concat (map img_listeners [0..<length (doc_galleryImages p)]) @
          [(OnElement CloseBtn, ''click'', CloseLightbox),
           (OnElement Overlay, ''click'', CloseLightbox),
           (OnElement PrevBtn, ''click'', ShowPrev),
           (OnElement NextBtn, ''click'', ShowNext),
           (OnDocument, ''keydown'', DocumentKeydown)]\<rparr>)"

subsection \<open>Runs\<close>

text \<open>
  The states a page can be in: the initial one, and any state in which some registered
  listener has run on a reachable state, with any key. An exception in a listener is
  reported by the browser and the page lives on in the state left behind.
\<close>

inductive reachable :: "activation \<Rightarrow> viewer \<Rightarrow> bool" for a :: activation where
  start: "reachable a (initial a)"
| step: "reachable a s \<Longrightarrow> (t, ty, h) \<in> set (attached a) \<Longrightarrow>
         reachable a (after (run_handler h key s))"

text \<open>\<open>k\<close> calls of \<^verbatim>\<open>showNext\<close> in a row, one after the other; a throw ends the run.\<close>

fun next_times :: "nat \<Rightarrow> viewer \<Rightarrow> outcome" where
  "next_times 0 s = Inr s"
| "next_times (Suc k) s =
    (case showNext s of Inl err \<Rightarrow> Inl err | Inr s' \<Rightarrow> next_times k s')"

subsection \<open>A page with three gallery images\<close>

text \<open>
  Concrete data for evaluating the definitions: the first image sits in a figure with a
  caption, the second in a figure without one, the third in no figure.
\<close>

definition gallery3 :: "img_elem list" where
  "gallery3 =
    [\<lparr>src = ''images/lobby.jpg'', alt = ''Hotel lobby'',
      figure = Some \<lparr>figcaption = Some ''Our grand lobby''\<rparr>,
      style_cursor = '''', tabindex = None, role = None\<rparr>,
     \<lparr>src = ''images/pool.jpg'', alt = ''Swimming pool'',
      figure = Some \<lparr>figcaption = None\<rparr>,
      style_cursor = '''', tabindex = None, role = None\<rparr>,
     \<lparr>src = ''images/suite.jpg'', alt = ''Executive suite'',
      figure = None,
      style_cursor = '''', tabindex = None, role = None\<rparr>]"

definition page3 :: page where
  "page3 = \<lparr>doc_galleryImages = gallery3, doc_body_overflow = '''', doc_activeElement = Body\<rparr>"

section \<open>Basic facts\<close>

lemma array_get_valid:
  "0 \<le> i \<Longrightarrow> i < int (length xs) \<Longrightarrow> array_get xs (Num i) = Some (xs ! nat i)"
  by simp

lemma view_Open_iff:
  "view s = Open c \<longleftrightarrow> classList_contains ACTIVE (classList s) \<and> currentIndex s = c"
  by (simp add: view_def)

lemma view_Closed_iff:
  "view s = Closed \<longleftrightarrow> \<not> classList_contains ACTIVE (classList s)"
  by (simp add: view_def)

lemma classList_contains_add: "classList_contains c (classList_add c cl)"
  by (simp add: classList_contains_def classList_add_def)

lemma classList_contains_remove: "\<not> classList_contains c (classList_remove c cl)"
  by (simp add: classList_contains_def classList_remove_def)

lemma showLightbox_valid:
  assumes "0 \<le> i" and "i < int (length (imageArray s))"
  shows "showLightbox (Num i) s =
    Inr (s\<lparr>currentIndex := Num i,
            lightboxImage_src := src (imageArray s ! nat i),
            lightboxImage_alt := alt (imageArray s ! nat i),
            lightboxCaption_textContent :=
              (case (case figure (imageArray s ! nat i) of
                       Some fig \<Rightarrow> figcaption fig | None \<Rightarrow> None) of
                 Some txt \<Rightarrow> txt | None \<Rightarrow> alt (imageArray s ! nat i)),
            classList := classList_add ACTIVE (classList s),
            aria_hidden := ''false'',
            body_overflow := ''hidden'',
            activeElement := CloseBtn\<rparr>)"
  using assms by (simp add: showLightbox_def Let_def)

lemma trunc_rem_nonneg: "0 \<le> a \<Longrightarrow> 0 < b \<Longrightarrow> trunc_rem a b = a mod b"
  by (cases "a = 0") (simp_all add: trunc_rem_def)

lemma showNext_valid:
  assumes "currentIndex s = Num i" and "0 \<le> i" and "i < int (length (imageArray s))"
  shows "showNext s =
    showLightbox (Num ((i + 1) mod int (length (imageArray s))))
      (s\<lparr>currentIndex := Num ((i + 1) mod int (length (imageArray s)))\<rparr>)"
proof -
  have n: "0 < int (length (imageArray s))" using assms by linarith
  have "trunc_rem (i + 1) (int (length (imageArray s))) = (i + 1) mod int (length (imageArray s))"
    using assms n by (intro trunc_rem_nonneg) simp_all
  with n assms(1) show ?thesis
    by (simp add: showNext_def Let_def)
qed

lemma showPrev_valid:
  assumes "currentIndex s = Num i" and "0 \<le> i" and "i < int (length (imageArray s))"
  shows "showPrev s =
    showLightbox (Num ((i - 1 + int (length (imageArray s))) mod int (length (imageArray s))))
      (s\<lparr>currentIndex :=
           Num ((i - 1 + int (length (imageArray s))) mod int (length (imageArray s)))\<rparr>)"
proof -
  have n: "0 < int (length (imageArray s))" using assms by linarith
  have "trunc_rem (i - 1 + int (length (imageArray s))) (int (length (imageArray s)))
      = (i - 1 + int (length (imageArray s))) mod int (length (imageArray s))"
    using assms n by (intro trunc_rem_nonneg) simp_all
  with n assms(1) show ?thesis
    by (simp add: showPrev_def Let_def)
qed

lemma classList_add_idem: "classList_add c (classList_add c cl) = classList_add c cl"
  by (simp add: classList_add_def)

lemma classList_remove_absent:
  "\<not> classList_contains c cl \<Longrightarrow> classList_remove c cl = cl"
  by (simp add: classList_contains_def classList_remove_def)

text \<open>
  With a valid current index, navigation is \<^verbatim>\<open>showLightbox\<close> at the neighbouring
  index: the assignment to \<^verbatim>\<open>currentIndex\<close> in \<^verbatim>\<open>showNext\<close> is repeated inside.
\<close>

lemma showNext_as_open:
  assumes "currentIndex s = Num i" and "0 \<le> i" and "i < int (length (imageArray s))"
  shows "showNext s = showLightbox (Num ((i + 1) mod int (length (imageArray s)))) s"
proof -
  have n: "0 < int (length (imageArray s))" using assms by linarith
  then have "0 \<le> (i + 1) mod int (length (imageArray s))"
    and "(i + 1) mod int (length (imageArray s)) < int (length (imageArray s))"
    by simp_all
  then show ?thesis
    by (simp add: showNext_valid [OF assms] showLightbox_valid split: option.splits)
qed

lemma showPrev_as_open:
  assumes "currentIndex s = Num i" and "0 \<le> i" and "i < int (length (imageArray s))"
  shows "showPrev s =
    showLightbox (Num ((i - 1 + int (length (imageArray s))) mod int (length (imageArray s)))) s"
proof -
  have n: "0 < int (length (imageArray s))" using assms by linarith
  then have "0 \<le> (i - 1 + int (length (imageArray s))) mod int (length (imageArray s))"
    and "(i - 1 + int (length (imageArray s))) mod int (length (imageArray s))
          < int (length (imageArray s))"
    by simp_all
  then show ?thesis
    by (simp add: showPrev_valid [OF assms] showLightbox_valid split: option.splits)
qed

lemma showLightbox_props:
  assumes "0 \<le> k" and "k < int (length (imageArray s))"
  shows "\<exists>s'. showLightbox (Num k) s = Inr s' \<and> imageArray s' = imageArray s \<and>
           currentIndex s' = Num k \<and> classList_contains ACTIVE (classList s')"
  using assms by (simp add: showLightbox_valid classList_contains_add)

lemma showLightbox_twice:
  assumes "0 \<le> j" and "j < int (length (imageArray s))"
    and "0 \<le> m" and "m < int (length (imageArray s))"
  shows "showLightbox (Num m) (after (showLightbox (Num j) s)) = showLightbox (Num m) s"
  using assms by (simp add: showLightbox_valid classList_add_idem split: option.splits)

lemma closeLightbox_props:
  "imageArray (closeLightbox s) = imageArray s \<and>
   currentIndex (closeLightbox s) = currentIndex s \<and>
   \<not> classList_contains ACTIVE (classList (closeLightbox s)) \<and>
   aria_hidden (closeLightbox s) = ''true'' \<and>
   body_overflow (closeLightbox s) = ''''"
  by (simp add: closeLightbox_def classList_contains_remove)

lemma next_times_Suc:
  assumes "currentIndex s = Num i" and "0 \<le> i" and "i < int (length (imageArray s))"
  shows "next_times (Suc k) s =
    showLightbox (Num ((i + 1 + int k) mod int (length (imageArray s)))) s"
  using assms
proof (induction k arbitrary: s i)
  case 0
  then show ?case by (simp add: showNext_as_open split: sum.splits)
next
  case (Suc k)
  let ?n = "int (length (imageArray s))"
  let ?j = "(i + 1) mod ?n"
  have n: "0 < ?n" using Suc.prems by linarith
  have j: "0 \<le> ?j" "?j < ?n" using n by simp_all
  obtain s1 where s1: "showLightbox (Num ?j) s = Inr s1" "imageArray s1 = imageArray s"
    "currentIndex s1 = Num ?j"
    using showLightbox_props [OF j] by blast
  have step: "showNext s = Inr s1"
    using Suc.prems s1 by (simp add: showNext_as_open)
  have "next_times (Suc (Suc k)) s = next_times (Suc k) s1"
    using step by simp
  also have "\<dots> = showLightbox (Num ((?j + 1 + int k) mod ?n)) s1"
    using Suc.IH [of s1 ?j] s1 j by simp
  also have "(?j + 1 + int k) mod ?n = (i + 1 + int (Suc k)) mod ?n"
  proof -
    have "(?j + (1 + int k)) mod ?n = (i + 1 + (1 + int k)) mod ?n"
      by (rule mod_add_left_eq)
    then show ?thesis by (simp add: add.assoc)
  qed
  also have "showLightbox (Num ((i + 1 + int (Suc k)) mod ?n)) s1
      = showLightbox (Num ((i + 1 + int (Suc k)) mod ?n)) s"
    using showLightbox_twice [OF j, of "(i + 1 + int (Suc k)) mod ?n"] n s1(1) by simp
  finally show ?case .
qed

subsection \<open>What every listener preserves\<close>

text \<open>
  A listener run on a state with a valid current index returns, keeps the array, leaves
  a valid current index, and leaves a closed viewer with \<^verbatim>\<open>aria-hidden\<close> true and the
  body's overflow either reset or as the page had it (\<open>ov\<close>).
\<close>

lemma run_handler_inv:
  assumes idx: "currentIndex s = Num i" "0 \<le> i" "i < int (length (imageArray s))"
    and h: "case h of ShowLightboxAt k \<Rightarrow> k < length (imageArray s)
                    | ImgKeydownAt k \<Rightarrow> k < length (imageArray s)
                    | _ \<Rightarrow> True"
    and cl: "\<not> classList_contains ACTIVE (classList s) \<longrightarrow>
               aria_hidden s = ''true'' \<and> (body_overflow s = '''' \<or> body_overflow s = ov)"
  shows "\<exists>s'. run_handler h key s = Inr s' \<and>
           imageArray s' = imageArray s \<and>
           (\<exists>j. currentIndex s' = Num j \<and> 0 \<le> j \<and> j < int (length (imageArray s))) \<and>
           (\<not> classList_contains ACTIVE (classList s') \<longrightarrow>
               aria_hidden s' = ''true'' \<and> (body_overflow s' = '''' \<or> body_overflow s' = ov))"
proof -
  let ?n = "int (length (imageArray s))"
  have n: "0 < ?n" using idx by linarith
  have opened: "\<exists>s'. showLightbox (Num k) s = Inr s' \<and> imageArray s' = imageArray s \<and>
           (\<exists>j. currentIndex s' = Num j \<and> 0 \<le> j \<and> j < ?n) \<and>
           (\<not> classList_contains ACTIVE (classList s') \<longrightarrow>
               aria_hidden s' = ''true'' \<and> (body_overflow s' = '''' \<or> body_overflow s' = ov))"
    if "0 \<le> k" "k < ?n" for k
    using showLightbox_props [OF that] that by auto
  have closed: "\<exists>s'. Inr (closeLightbox s) = (Inr s' :: outcome) \<and> imageArray s' = imageArray s \<and>
           (\<exists>j. currentIndex s' = Num j \<and> 0 \<le> j \<and> j < ?n) \<and>
           (\<not> classList_contains ACTIVE (classList s') \<longrightarrow>
               aria_hidden s' = ''true'' \<and> (body_overflow s' = '''' \<or> body_overflow s' = ov))"
    using closeLightbox_props [of s] idx by simp
  have same: "\<exists>s'. Inr s = (Inr s' :: outcome) \<and> imageArray s' = imageArray s \<and>
           (\<exists>j. currentIndex s' = Num j \<and> 0 \<le> j \<and> j < ?n) \<and>
           (\<not> classList_contains ACTIVE (classList s') \<longrightarrow>
               aria_hidden s' = ''true'' \<and> (body_overflow s' = '''' \<or> body_overflow s' = ov))"
    using idx cl by simp
  have nx: "0 \<le> (i + 1) mod ?n" "(i + 1) mod ?n < ?n" using n by simp_all
  have pv: "0 \<le> (i - 1 + ?n) mod ?n" "(i - 1 + ?n) mod ?n < ?n" using n by simp_all
  show ?thesis
  proof (cases h)
    case (ShowLightboxAt k)
    then show ?thesis using opened [of "int k"] h by simp
  next
    case (ImgKeydownAt k)
    then show ?thesis using opened [of "int k"] same h by (simp add: img_keydown_def)
  next
    case CloseLightbox
    then show ?thesis using closed by simp
  next
    case ShowPrev
    then show ?thesis using opened [OF pv] by (simp add: showPrev_as_open [OF idx])
  next
    case ShowNext
    then show ?thesis using opened [OF nx] by (simp add: showNext_as_open [OF idx])
  next
    case DocumentKeydown
    then show ?thesis using opened [OF pv] opened [OF nx] closed same
      by (simp add: document_keydown_def showPrev_as_open [OF idx] showNext_as_open [OF idx])
  qed
qed

lemma attached_index:
  assumes "initGalleryLightbox p = Some a" and "(t, ty, h) \<in> set (attached a)"
  shows "case h of ShowLightboxAt k \<Rightarrow> k < length (doc_galleryImages p)
                 | ImgKeydownAt k \<Rightarrow> k < length (doc_galleryImages p)
                 | _ \<Rightarrow> True"
  using assms
  by (auto simp add: initGalleryLightbox_def img_listeners_def split: if_splits)

lemma reachable_inv:
  assumes "initGalleryLightbox p = Some a" and "reachable a s"
  shows "imageArray s = map activate_img (doc_galleryImages p) \<and>
         (\<exists>j. currentIndex s = Num j \<and> 0 \<le> j \<and> j < int (length (doc_galleryImages p))) \<and>
         (\<not> classList_contains ACTIVE (classList s) \<longrightarrow>
             aria_hidden s = ''true'' \<and>
             (body_overflow s = '''' \<or> body_overflow s = doc_body_overflow p))"
  using assms(2)
proof (induction rule: reachable.induct)
  case start
  show ?case using assms(1)
    by (auto simp add: initGalleryLightbox_def split: if_splits)
next
  case (step s t ty h key)
  from step.IH obtain j where
    ia: "imageArray s = map activate_img (doc_galleryImages p)" and
    j: "currentIndex s = Num j" "0 \<le> j" "j < int (length (imageArray s))" and
    cl: "\<not> classList_contains ACTIVE (classList s) \<longrightarrow>
             aria_hidden s = ''true'' \<and>
             (body_overflow s = '''' \<or> body_overflow s = doc_body_overflow p)"
    by auto
  have h: "case h of ShowLightboxAt k \<Rightarrow> k < length (imageArray s)
                    | ImgKeydownAt k \<Rightarrow> k < length (imageArray s)
                    | _ \<Rightarrow> True"
    using attached_index [OF assms(1) step.hyps(2)] ia by (simp split: handler.splits)
  from run_handler_inv [OF j h cl, of key] ia show ?case by auto
qed

subsection \<open>The three-image page\<close>

lemma page3_activated:
  "initGalleryLightbox page3 = Some (the (initGalleryLightbox page3))"
  by (simp add: initGalleryLightbox_def page3_def gallery3_def)

lemma page3_attached:
  "(OnElement (GalleryImg 0), ''click'', ShowLightboxAt 0)
      \<in> set (attached (the (initGalleryLightbox page3)))"
  "(OnElement PrevBtn, ''click'', ShowPrev) \<in> set (attached (the (initGalleryLightbox page3)))"
  "(OnElement CloseBtn, ''click'', CloseLightbox)
      \<in> set (attached (the (initGalleryLightbox page3)))"
  by (simp_all add: initGalleryLightbox_def page3_def gallery3_def img_listeners_def)

section \<open>Opening\<close>

text \<open>
  Claim C2. For every valid index \<open>i\<close>, \<^verbatim>\<open>showLightbox(i)\<close> returns, and right after it
  the displayed source is entry \<open>i\<close>'s source, the accessible name is entry \<open>i\<close>'s
  alternative text, and the caption is the text of the entry's caption element (the
  \<^verbatim>\<open>figcaption\<close> of its closest figure) when there is one, else the alternative text.
  The entry is read from the array at the time of the call.
\<close>

theorem open_renders_entry:
  assumes "0 \<le> i" and "i < int (length (imageArray s))"
  shows "\<exists>s'. showLightbox (Num i) s = Inr s' \<and>
           lightboxImage_src s' = src (imageArray s ! nat i) \<and>
           lightboxImage_alt s' = alt (imageArray s ! nat i) \<and>
           lightboxCaption_textContent s' =
             (case figure (imageArray s ! nat i) of
                None \<Rightarrow> alt (imageArray s ! nat i)
              | Some fig \<Rightarrow>
                  (case figcaption fig of
                     None \<Rightarrow> alt (imageArray s ! nat i)
                   | Some txt \<Rightarrow> txt))"
  using assms by (simp add: showLightbox_valid split: option.splits)

text \<open>The three entries of the example page: with a caption, without one, without a figure.\<close>

theorem open_renders_entry_witness:
  "lightboxImage_src (after (showLightbox (Num 0) (initial (the (initGalleryLightbox page3)))))
     = ''images/lobby.jpg'' \<and>
   lightboxImage_alt (after (showLightbox (Num 0) (initial (the (initGalleryLightbox page3)))))
     = ''Hotel lobby'' \<and>
   lightboxCaption_textContent
     (after (showLightbox (Num 0) (initial (the (initGalleryLightbox page3)))))
     = ''Our grand lobby'' \<and>
   lightboxCaption_textContent
     (after (showLightbox (Num 1) (initial (the (initGalleryLightbox page3)))))
     = ''Swimming pool'' \<and>
   lightboxCaption_textContent
     (after (showLightbox (Num 2) (initial (the (initGalleryLightbox page3)))))
     = ''Executive suite''"
  using open_renders_entry [of 0 "initial (the (initGalleryLightbox page3))"]
    open_renders_entry [of 1 "initial (the (initGalleryLightbox page3))"]
    open_renders_entry [of 2 "initial (the (initGalleryLightbox page3))"]
  by (auto simp add: initGalleryLightbox_def page3_def gallery3_def activate_img_def)

text \<open>
  Claim C8. For every valid index, \<^verbatim>\<open>showLightbox\<close> sets \<^verbatim>\<open>aria-hidden\<close> to false,
  locks page scrolling (the body's overflow is hidden) and focuses the close button;
  \<^verbatim>\<open>closeLightbox\<close>, in any state, sets \<^verbatim>\<open>aria-hidden\<close> to true and resets the
  body's overflow.
\<close>

theorem open_close_modal:
  assumes "0 \<le> i" and "i < int (length (imageArray s))"
  shows "(\<exists>s'. showLightbox (Num i) s = Inr s' \<and>
            aria_hidden s' = ''false'' \<and>
            body_overflow s' = ''hidden'' \<and>
            activeElement s' = CloseBtn) \<and>
         aria_hidden (closeLightbox t) = ''true'' \<and>
         body_overflow (closeLightbox t) = ''''"
  using assms by (simp add: showLightbox_valid closeLightbox_def)

theorem open_close_modal_witness:
  "aria_hidden (after (showLightbox (Num 1) (initial (the (initGalleryLightbox page3))))) = ''false'' \<and>
   body_overflow (after (showLightbox (Num 1) (initial (the (initGalleryLightbox page3))))) = ''hidden'' \<and>
   activeElement (after (showLightbox (Num 1) (initial (the (initGalleryLightbox page3))))) = CloseBtn \<and>
   aria_hidden (closeLightbox (after (showLightbox (Num 1)
     (initial (the (initGalleryLightbox page3)))))) = ''true'' \<and>
   body_overflow (closeLightbox (after (showLightbox (Num 1)
     (initial (the (initGalleryLightbox page3)))))) = ''''"
  using open_close_modal [of 1 "initial (the (initGalleryLightbox page3))"
      "after (showLightbox (Num 1) (initial (the (initGalleryLightbox page3))))"]
  by (auto simp add: initGalleryLightbox_def page3_def gallery3_def)

section \<open>Navigation\<close>

text \<open>
  Claim C1. For a gallery of length \<open>n \<ge> 1\<close> and an open viewer at index \<open>i\<close> with
  \<open>0 \<le> i < n\<close>, \<^verbatim>\<open>showNext\<close> returns and leaves the viewer open at
  \<open>(i + 1) mod n\<close>, and \<^verbatim>\<open>showPrev\<close> returns and leaves it open at
  \<open>(i - 1 + n) mod n\<close>. In particular the successor of the last index is \<open>0\<close> and the
  predecessor of \<open>0\<close> is the last index.
\<close>

theorem next_previous_wrap:
  assumes "view s = Open (Num i)" and "0 \<le> i" and "i < int (length (imageArray s))"
  shows "(\<exists>s'. showNext s = Inr s' \<and>
               view s' = Open (Num ((i + 1) mod int (length (imageArray s))))) \<and>
         (\<exists>s'. showPrev s = Inr s' \<and>
               view s' = Open (Num ((i - 1 + int (length (imageArray s)))
                                      mod int (length (imageArray s))))) \<and>
         (i = int (length (imageArray s)) - 1 \<longrightarrow> view (after (showNext s)) = Open (Num 0)) \<and>
         (i = 0 \<longrightarrow> view (after (showPrev s)) = Open (Num (int (length (imageArray s)) - 1)))"
proof -
  let ?n = "int (length (imageArray s))"
  have ci: "currentIndex s = Num i" using assms(1) by (simp add: view_Open_iff)
  have n: "0 < ?n" using assms by linarith
  have nx: "0 \<le> (i + 1) mod ?n" "(i + 1) mod ?n < ?n" using n by simp_all
  have pv: "0 \<le> (i - 1 + ?n) mod ?n" "(i - 1 + ?n) mod ?n < ?n" using n by simp_all
  have N: "\<exists>s'. showNext s = Inr s' \<and> view s' = Open (Num ((i + 1) mod ?n))"
    using nx by (simp add: showNext_valid [OF ci assms(2,3)] showLightbox_valid
        view_Open_iff classList_contains_add)
  have P: "\<exists>s'. showPrev s = Inr s' \<and> view s' = Open (Num ((i - 1 + ?n) mod ?n))"
    using pv by (simp add: showPrev_valid [OF ci assms(2,3)] showLightbox_valid
        view_Open_iff classList_contains_add)
  have L: "i = ?n - 1 \<longrightarrow> view (after (showNext s)) = Open (Num 0)"
    using N by auto
  have "(?n - 1) mod ?n = ?n - 1"
    using n by (intro mod_pos_pos_trivial) simp_all
  then have "(0 - 1 + ?n) mod ?n = ?n - 1"
    by (simp add: algebra_simps)
  then have F: "i = 0 \<longrightarrow> view (after (showPrev s)) = Open (Num (?n - 1))"
    using P by auto
  from N P L F show ?thesis by blast
qed

text \<open>On the three-image page: open at index 2, then next, is open at index 0.\<close>

theorem next_previous_wrap_witness:
  "view (after (showLightbox (Num 2) (initial (the (initGalleryLightbox page3))))) = Open (Num 2) \<and>
   view (after (showNext (after (showLightbox (Num 2)
     (initial (the (initGalleryLightbox page3))))))) = Open (Num 0)"
  using next_previous_wrap
    [of "after (showLightbox (Num 2) (initial (the (initGalleryLightbox page3))))" 2]
  by (simp add: initGalleryLightbox_def page3_def gallery3_def showLightbox_def view_def
        classList_contains_def classList_add_def ACTIVE_def)

text \<open>
  Claim C10. \<^verbatim>\<open>showNext\<close> and \<^verbatim>\<open>showPrev\<close> on an open viewer focus the close
  button as well, since both end in \<^verbatim>\<open>showLightbox\<close>.
\<close>

theorem navigation_focuses_close:
  assumes "view s = Open (Num i)" and "0 \<le> i" and "i < int (length (imageArray s))"
  shows "(\<exists>s'. showNext s = Inr s' \<and> activeElement s' = CloseBtn) \<and>
         (\<exists>s'. showPrev s = Inr s' \<and> activeElement s' = CloseBtn)"
proof -
  let ?n = "int (length (imageArray s))"
  have ci: "currentIndex s = Num i" using assms(1) by (simp add: view_Open_iff)
  have n: "0 < ?n" using assms by linarith
  have nx: "0 \<le> (i + 1) mod ?n" "(i + 1) mod ?n < ?n" using n by simp_all
  have pv: "0 \<le> (i - 1 + ?n) mod ?n" "(i - 1 + ?n) mod ?n < ?n" using n by simp_all
  have N: "\<exists>s'. showNext s = Inr s' \<and> activeElement s' = CloseBtn"
    using nx by (simp add: showNext_valid [OF ci assms(2,3)] showLightbox_valid)
  have P: "\<exists>s'. showPrev s = Inr s' \<and> activeElement s' = CloseBtn"
    using pv by (simp add: showPrev_valid [OF ci assms(2,3)] showLightbox_valid)
  from N P show ?thesis by blast
qed

text \<open>With the focus moved to the next button after opening, navigation takes it back.\<close>

theorem navigation_focuses_close_witness:
  "view ((after (showLightbox (Num 0) (initial (the (initGalleryLightbox page3)))))
          \<lparr>activeElement := NextBtn\<rparr>) = Open (Num 0) \<and>
   activeElement (after (showNext
     ((after (showLightbox (Num 0) (initial (the (initGalleryLightbox page3)))))
        \<lparr>activeElement := NextBtn\<rparr>))) = CloseBtn \<and>
   activeElement (after (showPrev
     ((after (showLightbox (Num 0) (initial (the (initGalleryLightbox page3)))))
        \<lparr>activeElement := NextBtn\<rparr>))) = CloseBtn"
  using navigation_focuses_close
    [of "(after (showLightbox (Num 0) (initial (the (initGalleryLightbox page3)))))
           \<lparr>activeElement := NextBtn\<rparr>" 0]
  by (auto simp add: initGalleryLightbox_def page3_def gallery3_def showLightbox_def view_def
        classList_contains_def classList_add_def ACTIVE_def)

text \<open>
  Claim C6. From an open viewer at a valid index \<open>i\<close> of a gallery of length \<open>n\<close>,
  \<open>k\<close> calls of \<^verbatim>\<open>showNext\<close> all return and end open at \<open>(i + k) mod n\<close>; \<open>n\<close>
  calls end open at \<open>i\<close> again, in exactly the state that \<^verbatim>\<open>showLightbox(i)\<close> gives.
\<close>

theorem next_times_cycle:
  assumes "view s = Open (Num i)" and "0 \<le> i" and "i < int (length (imageArray s))"
  shows "(\<exists>s'. next_times k s = Inr s' \<and>
            view s' = Open (Num ((i + int k) mod int (length (imageArray s))))) \<and>
         (\<exists>s'. next_times (length (imageArray s)) s = Inr s' \<and> view s' = Open (Num i)) \<and>
         next_times (length (imageArray s)) s = showLightbox (Num i) s"
proof -
  let ?n = "int (length (imageArray s))"
  have ci: "currentIndex s = Num i" using assms(1) by (simp add: view_Open_iff)
  have n: "0 < ?n" using assms by linarith
  have any: "\<exists>s'. next_times k s = Inr s' \<and> view s' = Open (Num ((i + int k) mod ?n))" for k
  proof (cases k)
    case 0
    then show ?thesis using assms by simp
  next
    case (Suc m)
    have "0 \<le> (i + 1 + int m) mod ?n" "(i + 1 + int m) mod ?n < ?n" using n by simp_all
    from showLightbox_props [OF this] obtain s' where
      "showLightbox (Num ((i + 1 + int m) mod ?n)) s = Inr s'"
      "view s' = Open (Num ((i + 1 + int m) mod ?n))"
      by (auto simp add: view_Open_iff)
    then show ?thesis
      using Suc next_times_Suc [OF ci assms(2,3), of m] by (simp add: algebra_simps)
  qed
  have full: "(i + ?n) mod ?n = i" using assms by simp
  obtain m where m: "length (imageArray s) = Suc m" using n by (cases "length (imageArray s)") auto
  have "next_times (length (imageArray s)) s = showLightbox (Num ((i + 1 + int m) mod ?n)) s"
    using next_times_Suc [OF ci assms(2,3), of m] m by simp
  also have "(i + 1 + int m) mod ?n = i" using full m by (simp add: algebra_simps)
  finally have whole: "next_times (length (imageArray s)) s = showLightbox (Num i) s" .
  from any [of k] any [of "length (imageArray s)"] full whole show ?thesis by simp
qed

text \<open>From index 1 of three images: five calls end at index 0, three calls at index 1.\<close>

theorem next_times_cycle_witness:
  "view (after (showLightbox (Num 1) (initial (the (initGalleryLightbox page3))))) = Open (Num 1) \<and>
   (\<exists>s'. next_times 5 (after (showLightbox (Num 1) (initial (the (initGalleryLightbox page3)))))
            = Inr s' \<and> view s' = Open (Num 0)) \<and>
   (\<exists>s'. next_times 3 (after (showLightbox (Num 1) (initial (the (initGalleryLightbox page3)))))
            = Inr s' \<and> view s' = Open (Num 1))"
proof -
  let ?s = "after (showLightbox (Num 1) (initial (the (initGalleryLightbox page3))))"
  have v: "view ?s = Open (Num 1)"
    by (simp add: initGalleryLightbox_def page3_def gallery3_def showLightbox_def view_def
        classList_contains_def classList_add_def ACTIVE_def)
  have len: "length (imageArray ?s) = 3"
    by (simp add: initGalleryLightbox_def page3_def gallery3_def showLightbox_def)
  have b: "(0::int) \<le> 1" "(1::int) < int (length (imageArray ?s))"
    using len by simp_all
  note cyc = next_times_cycle [OF v b, of 5]
  have five: "\<exists>s'. next_times 5 ?s = Inr s' \<and> view s' = Open (Num 0)"
    using cyc [THEN conjunct1] len by simp
  have three: "\<exists>s'. next_times 3 ?s = Inr s' \<and> view s' = Open (Num 1)"
    using cyc [THEN conjunct2, THEN conjunct1] len by simp
  from v five three show ?thesis by blast
qed

section \<open>The index invariant\<close>

text \<open>
  Claim C3. In every state reachable from the initial, closed state by running
  registered listeners (which open at an index taken from a gallery image, close, go to
  the next or the previous image), an open viewer has a current index \<open>i\<close> with
  \<open>0 \<le> i < length\<close>, the length being that of the page's gallery.
\<close>

theorem open_index_valid:
  assumes "initGalleryLightbox p = Some a" and "reachable a s" and "view s = Open c"
  shows "\<exists>i. c = Num i \<and> 0 \<le> i \<and> i < int (length (imageArray s)) \<and>
             length (imageArray s) = length (doc_galleryImages p)"
  using reachable_inv [OF assms(1,2)] assms(3) by (auto simp add: view_Open_iff)

text \<open>Open at index 0 and go back once: reachable, open at index 2, which is below 3.\<close>

theorem open_index_valid_witness:
  "reachable (the (initGalleryLightbox page3))
     (after (run_handler ShowPrev ''''
        (after (run_handler (ShowLightboxAt 0) '''' (initial (the (initGalleryLightbox page3))))))) \<and>
   view (after (run_handler ShowPrev ''''
        (after (run_handler (ShowLightboxAt 0) '''' (initial (the (initGalleryLightbox page3)))))))
     = Open (Num 2) \<and>
   (\<exists>i. Num 2 = Num i \<and> 0 \<le> i \<and>
        i < int (length (imageArray (after (run_handler ShowPrev ''''
              (after (run_handler (ShowLightboxAt 0) ''''
                 (initial (the (initGalleryLightbox page3))))))))) \<and>
        length (imageArray (after (run_handler ShowPrev ''''
              (after (run_handler (ShowLightboxAt 0) ''''
                 (initial (the (initGalleryLightbox page3)))))))) = length (doc_galleryImages page3))"
proof -
  let ?a = "the (initGalleryLightbox page3)"
  let ?s = "after (run_handler ShowPrev ''''
              (after (run_handler (ShowLightboxAt 0) '''' (initial ?a))))"
  have r: "reachable ?a ?s"
    by (rule reachable.step [OF reachable.step [OF reachable.start page3_attached(1)]
          page3_attached(2)])
  have v: "view ?s = Open (Num 2)"
    by (simp add: initGalleryLightbox_def page3_def gallery3_def showLightbox_def showPrev_def
        trunc_rem_def view_def classList_contains_def classList_add_def ACTIVE_def)
  from r v open_index_valid [OF page3_activated r v] show ?thesis by blast
qed

section \<open>Closing\<close>

text \<open>
  Claim C4 says that \<^verbatim>\<open>closeLightbox\<close> on an already closed viewer is a no-op in
  every state. On a page whose body carries an inline overflow, here \<^verbatim>\<open>scroll\<close>, the
  initial state is closed and \<^verbatim>\<open>closeLightbox\<close> changes it: the body's overflow is
  reset to the empty string.
\<close>

theorem close_noop_counterexample:
  "reachable (the (initGalleryLightbox (page3\<lparr>doc_body_overflow := ''scroll''\<rparr>)))
     (initial (the (initGalleryLightbox (page3\<lparr>doc_body_overflow := ''scroll''\<rparr>)))) \<and>
   view (initial (the (initGalleryLightbox (page3\<lparr>doc_body_overflow := ''scroll''\<rparr>)))) = Closed \<and>
   body_overflow (initial (the (initGalleryLightbox (page3\<lparr>doc_body_overflow := ''scroll''\<rparr>))))
     = ''scroll'' \<and>
   body_overflow (closeLightbox
     (initial (the (initGalleryLightbox (page3\<lparr>doc_body_overflow := ''scroll''\<rparr>))))) = '''' \<and>
   closeLightbox (initial (the (initGalleryLightbox (page3\<lparr>doc_body_overflow := ''scroll''\<rparr>))))
     \<noteq> initial (the (initGalleryLightbox (page3\<lparr>doc_body_overflow := ''scroll''\<rparr>)))"
proof -
  let ?s = "initial (the (initGalleryLightbox (page3\<lparr>doc_body_overflow := ''scroll''\<rparr>)))"
  have r: "reachable (the (initGalleryLightbox (page3\<lparr>doc_body_overflow := ''scroll''\<rparr>))) ?s"
    by (rule reachable.start)
  have v: "view ?s = Closed"
    by (simp add: initGalleryLightbox_def page3_def gallery3_def view_def
        classList_contains_def ACTIVE_def)
  have b: "body_overflow ?s = ''scroll''"
    by (simp add: initGalleryLightbox_def page3_def gallery3_def)
  have c: "body_overflow (closeLightbox ?s) = ''''"
    by (simp add: closeLightbox_def)
  from b c have "closeLightbox ?s \<noteq> ?s" by auto
  with r v b c show ?thesis by blast
qed

text \<open>
  Claim C4, amended. \<^verbatim>\<open>closeLightbox\<close> is idempotent: in every state, calling it
  twice gives exactly the state that calling it once gives, and it never throws. On an
  already closed viewer, in every reachable state, it changes nothing except the body's
  inline overflow, which it resets to the empty string; so it is a no-op on every page
  whose body carries no inline overflow.
\<close>

theorem close_idempotent_resets:
  "closeLightbox (closeLightbox s) = closeLightbox s \<and>
   run_handler CloseLightbox key s = Inr (closeLightbox s) \<and>
   (initGalleryLightbox p = Some a \<and> reachable a t \<and> view t = Closed \<longrightarrow>
      closeLightbox t = t\<lparr>body_overflow := ''''\<rparr>) \<and>
   (initGalleryLightbox p = Some a \<and> reachable a t \<and> view t = Closed \<and>
      doc_body_overflow p = '''' \<longrightarrow> closeLightbox t = t)"
proof -
  have idem: "closeLightbox (closeLightbox s) = closeLightbox s"
    by (simp add: closeLightbox_def classList_remove_def)
  have resets: "closeLightbox t = t\<lparr>body_overflow := ''''\<rparr>"
    if "initGalleryLightbox p = Some a" "reachable a t" "view t = Closed"
  proof -
    from that(3) have c: "\<not> classList_contains ACTIVE (classList t)"
      by (simp add: view_Closed_iff)
    with reachable_inv [OF that(1,2)] have "aria_hidden t = ''true''" by auto
    with c show ?thesis
      by (simp add: closeLightbox_def classList_remove_absent)
  qed
  have noop: "closeLightbox t = t"
    if "initGalleryLightbox p = Some a" "reachable a t" "view t = Closed"
      "doc_body_overflow p = ''''"
  proof -
    from that(3) have c: "\<not> classList_contains ACTIVE (classList t)"
      by (simp add: view_Closed_iff)
    with reachable_inv [OF that(1,2)] that(4) have "body_overflow t = ''''" by auto
    with resets [OF that(1,2,3)] show ?thesis by simp
  qed
  from idem resets noop show ?thesis by auto
qed

text \<open>
  Open at index 0 and close: closing once more gives the same state. On the page with
  the inline overflow, closing the initial state resets the overflow and nothing else.
\<close>

theorem close_idempotent_resets_witness:
  "reachable (the (initGalleryLightbox page3))
     (after (run_handler CloseLightbox ''''
        (after (run_handler (ShowLightboxAt 0) '''' (initial (the (initGalleryLightbox page3))))))) \<and>
   view (after (run_handler CloseLightbox ''''
        (after (run_handler (ShowLightboxAt 0) '''' (initial (the (initGalleryLightbox page3)))))))
     = Closed \<and>
   closeLightbox (after (run_handler CloseLightbox ''''
        (after (run_handler (ShowLightboxAt 0) '''' (initial (the (initGalleryLightbox page3)))))))
     = after (run_handler CloseLightbox ''''
        (after (run_handler (ShowLightboxAt 0) '''' (initial (the (initGalleryLightbox page3)))))) \<and>
   closeLightbox (initial (the (initGalleryLightbox (page3\<lparr>doc_body_overflow := ''scroll''\<rparr>))))
     = (initial (the (initGalleryLightbox (page3\<lparr>doc_body_overflow := ''scroll''\<rparr>))))
         \<lparr>body_overflow := ''''\<rparr>"
proof -
  let ?a = "the (initGalleryLightbox page3)"
  let ?t = "after (run_handler CloseLightbox ''''
              (after (run_handler (ShowLightboxAt 0) '''' (initial ?a))))"
  let ?q = "page3\<lparr>doc_body_overflow := ''scroll''\<rparr>"
  let ?b = "the (initGalleryLightbox ?q)"
  have r: "reachable ?a ?t"
    by (rule reachable.step [OF reachable.step [OF reachable.start page3_attached(1)]
          page3_attached(3)])
  have v: "view ?t = Closed"
    by (simp add: view_Closed_iff closeLightbox_def classList_contains_remove)
  have o: "doc_body_overflow page3 = ''''"
    by (simp add: page3_def)
  have qa: "initGalleryLightbox ?q = Some ?b"
    by (simp add: initGalleryLightbox_def page3_def gallery3_def)
  have qr: "reachable ?b (initial ?b)"
    by (rule reachable.start)
  have qv: "view (initial ?b) = Closed"
    by (simp add: initGalleryLightbox_def page3_def gallery3_def view_def
        classList_contains_def ACTIVE_def)
  have one: "closeLightbox ?t = ?t"
    using close_idempotent_resets [of _ _ page3 ?a ?t] page3_activated o r v by blast
  have two: "closeLightbox (initial ?b) = (initial ?b)\<lparr>body_overflow := ''''\<rparr>"
    using close_idempotent_resets [of _ _ ?q ?b "initial ?b"] qa qr qv by blast
  from r v one two show ?thesis by blast
qed

text \<open>
  Claim C5 says that \<^verbatim>\<open>closeLightbox\<close> empties the displayed source, accessible name
  and caption. It does not write them: after opening the first image of the example
  page and closing, all three are still those of that image.
\<close>

theorem close_clears_rendering_counterexample:
  "view (after (showLightbox (Num 0) (initial (the (initGalleryLightbox page3))))) = Open (Num 0) \<and>
   lightboxImage_src (closeLightbox (after (showLightbox (Num 0)
     (initial (the (initGalleryLightbox page3)))))) = ''images/lobby.jpg'' \<and>
   lightboxImage_alt (closeLightbox (after (showLightbox (Num 0)
     (initial (the (initGalleryLightbox page3)))))) = ''Hotel lobby'' \<and>
   lightboxCaption_textContent (closeLightbox (after (showLightbox (Num 0)
     (initial (the (initGalleryLightbox page3)))))) = ''Our grand lobby'' \<and>
   lightboxImage_src (closeLightbox (after (showLightbox (Num 0)
     (initial (the (initGalleryLightbox page3)))))) \<noteq> ''''"
  by (simp add: initGalleryLightbox_def page3_def gallery3_def showLightbox_def view_def
        classList_contains_def classList_add_def ACTIVE_def closeLightbox_def activate_img_def)

text \<open>
  Claim C5, amended. In every state, and so in every open one, \<^verbatim>\<open>closeLightbox\<close>
  leaves the viewer closed, with \<^verbatim>\<open>aria-hidden\<close> true and the body's overflow reset,
  and leaves the displayed source, accessible name and caption as they were.
\<close>

theorem close_keeps_rendering:
  "view (closeLightbox s) = Closed \<and>
   aria_hidden (closeLightbox s) = ''true'' \<and>
   body_overflow (closeLightbox s) = '''' \<and>
   lightboxImage_src (closeLightbox s) = lightboxImage_src s \<and>
   lightboxImage_alt (closeLightbox s) = lightboxImage_alt s \<and>
   lightboxCaption_textContent (closeLightbox s) = lightboxCaption_textContent s"
  by (simp add: closeLightbox_def view_def classList_contains_remove)

theorem close_keeps_rendering_witness:
  "view (closeLightbox (after (showLightbox (Num 0) (initial (the (initGalleryLightbox page3))))))
     = Closed \<and>
   lightboxImage_src (closeLightbox (after (showLightbox (Num 0)
     (initial (the (initGalleryLightbox page3)))))) = ''images/lobby.jpg''"
  using close_keeps_rendering
    [of "after (showLightbox (Num 0) (initial (the (initGalleryLightbox page3))))"]
  by (simp add: initGalleryLightbox_def page3_def gallery3_def showLightbox_def activate_img_def)

section \<open>Keys while closed\<close>

text \<open>
  Claim C7. While the viewer is closed, the document's key handler returns the state it
  was given, whole, for the keys ArrowRight, ArrowLeft and Escape.
\<close>

theorem closed_keys_ignored:
  assumes "view s = Closed"
  shows "document_keydown ''ArrowRight'' s = Inr s \<and>
         document_keydown ''ArrowLeft'' s = Inr s \<and>
         document_keydown ''Escape'' s = Inr s"
  using assms by (simp add: document_keydown_def view_Closed_iff)

theorem closed_keys_ignored_witness:
  "view (initial (the (initGalleryLightbox page3))) = Closed \<and>
   document_keydown ''ArrowRight'' (initial (the (initGalleryLightbox page3)))
     = Inr (initial (the (initGalleryLightbox page3))) \<and>
   document_keydown ''ArrowLeft'' (initial (the (initGalleryLightbox page3)))
     = Inr (initial (the (initGalleryLightbox page3))) \<and>
   document_keydown ''Escape'' (initial (the (initGalleryLightbox page3)))
     = Inr (initial (the (initGalleryLightbox page3)))"
proof -
  have c: "view (initial (the (initGalleryLightbox page3))) = Closed"
    by (simp add: initGalleryLightbox_def page3_def gallery3_def view_def
        classList_contains_def ACTIVE_def)
  from c closed_keys_ignored [OF c] show ?thesis by simp
qed

section \<open>Initialisation without images\<close>

text \<open>
  Claim C9. On a page with no gallery image, and only there, \<^verbatim>\<open>initGalleryLightbox\<close>
  returns at its first check: no modal is created, no listener registered, no state
  exists. It is not an error.
\<close>

theorem init_without_images:
  "initGalleryLightbox p = None \<longleftrightarrow> doc_galleryImages p = []"
  by (simp add: initGalleryLightbox_def)

theorem init_without_images_witness:
  "initGalleryLightbox \<lparr>doc_galleryImages = [], doc_body_overflow = '''', doc_activeElement = Body\<rparr>
     = None"
  using init_without_images
    [of "\<lparr>doc_galleryImages = [], doc_body_overflow = '''', doc_activeElement = Body\<rparr>"]
  by simp

end
